theory Spec2Isabelle
  imports Main "HOL-Library.AList"
begin

section \<open>JavaScript values\<close>

text \<open>
  The form engine stores values of type \<^verbatim>\<open>any\<close>.  A value is a tree: primitives, arrays
  (elements with holes, plus named properties) and plain objects (own enumerable
  properties in insertion order).  Strings are lists of code units below 256.
  Numbers are kept exact: not-a-number, the two infinities, negative zero and the
  finite values, of which only the integers are represented; no rounding is modelled.
\<close>

datatype jsnum = NaN | PosInf | NegInf | NegZero | Fin int

datatype jsval =
    JUndefined
  | JNull
  | JBool bool
  | JNum jsnum
  | JStr string
  | JArr "jsval option list" "(string \<times> jsval) list"
  | JObj "(string \<times> jsval) list"

text \<open>
  What a call can throw.  \<open>NotModelled\<close> marks the inputs on which the code's behaviour
  depends on language or store machinery that is not represented here (they are listed
  where the constructor is used); no statement below is made about them.
\<close>

datatype error = TypeError | RangeError | NotModelled

definition numIsZero :: "jsnum \<Rightarrow> bool" where
  "numIsZero n = (n = Fin 0 \<or> n = NegZero)"

text \<open>\<^verbatim>\<open>typeof v == "number"\<close>\<close>

fun isNumber :: "jsval \<Rightarrow> bool" where
  "isNumber (JNum n) = True"
| "isNumber v = False"

text \<open>ToBoolean: what \<^verbatim>\<open>!v\<close> negates.\<close>

fun truthy :: "jsval \<Rightarrow> bool" where
  "truthy JUndefined = False"
| "truthy JNull = False"
| "truthy (JBool b) = b"
| "truthy (JNum n) = (n \<noteq> NaN \<and> \<not> numIsZero n)"
| "truthy (JStr s) = (s \<noteq> [])"
| "truthy (JArr es ps) = True"
| "truthy (JObj kvs) = True"

subsection \<open>Strings as numbers\<close>

text \<open>
  \<^verbatim>\<open>Number(s)\<close> on a string: white space is trimmed at both ends, the empty string is 0,
  and the rest must be a numeric literal: a signed decimal literal (digits, an optional
  fraction, an optional exponent, or \<^verbatim>\<open>Infinity\<close>) or an unsigned hexadecimal, octal or
  binary integer literal.  Anything else is NaN.
\<close>

definition isWhiteSpace :: "char \<Rightarrow> bool" where
  "isWhiteSpace c = (c \<in> set [CHR 0x09, CHR 0x0A, CHR 0x0B, CHR 0x0C, CHR 0x0D, CHR 0x20, CHR 0xA0])"

definition trimWhiteSpace :: "string \<Rightarrow> string" where
  "trimWhiteSpace s = rev (dropWhile isWhiteSpace (rev (dropWhile isWhiteSpace s)))"

definition isDecimalDigit :: "char \<Rightarrow> bool" where
  "isDecimalDigit c = (c \<in> set ''0123456789'')"

definition isHexDigit :: "char \<Rightarrow> bool" where
  "isHexDigit c = (c \<in> set ''0123456789abcdefABCDEF'')"

definition isOctalDigit :: "char \<Rightarrow> bool" where
  "isOctalDigit c = (c \<in> set ''01234567'')"

definition isBinaryDigit :: "char \<Rightarrow> bool" where
  "isBinaryDigit c = (c \<in> set ''01'')"

text \<open>An exponent part: \<^verbatim>\<open>e\<close> or \<^verbatim>\<open>E\<close>, an optional sign, one or more digits.\<close>

fun isExponentPart :: "string \<Rightarrow> bool" where
  "isExponentPart [] = False"
| "isExponentPart (c # r) =
     ((c = CHR ''e'' \<or> c = CHR ''E'') \<and>
      (case r of
         [] \<Rightarrow> False
       | d # r' \<Rightarrow>
           if d = CHR ''+'' \<or> d = CHR ''-'' then r' \<noteq> [] \<and> list_all isDecimalDigit r'
           else list_all isDecimalDigit r))"

text \<open>
  The mantissa of an unsigned decimal literal, split off the front of the string:
  the integer digits, whether a dot follows, the fraction digits and the rest.
\<close>

definition splitMantissa :: "string \<Rightarrow> string \<times> bool \<times> string \<times> string" where
  "splitMantissa s =
     (let ip = takeWhile isDecimalDigit s; r = dropWhile isDecimalDigit s
      in case r of
           c # r' \<Rightarrow>
             if c = CHR ''.''
             then (ip, True, takeWhile isDecimalDigit r', dropWhile isDecimalDigit r')
             else (ip, False, [], r)
         | [] \<Rightarrow> (ip, False, [], r))"

definition isUnsignedDecimal :: "string \<Rightarrow> bool" where
  "isUnsignedDecimal s =
     (s = ''Infinity'' \<or>
      (case splitMantissa s of
         (ip, dot, fp, r) \<Rightarrow>
           (ip \<noteq> [] \<or> (dot \<and> fp \<noteq> [])) \<and> (r = [] \<or> isExponentPart r)))"

definition isStrDecimalLiteral :: "string \<Rightarrow> bool" where
  "isStrDecimalLiteral s =
     (case s of
        [] \<Rightarrow> False
      | c # r \<Rightarrow> if c = CHR ''+'' \<or> c = CHR ''-'' then isUnsignedDecimal r else isUnsignedDecimal s)"

definition isNonDecimalIntegerLiteral :: "string \<Rightarrow> bool" where
  "isNonDecimalIntegerLiteral s =
     (case s of
        z # x # ds \<Rightarrow>
          z = CHR ''0'' \<and> ds \<noteq> [] \<and>
          ((x = CHR ''x'' \<or> x = CHR ''X'') \<and> list_all isHexDigit ds \<or>
           (x = CHR ''o'' \<or> x = CHR ''O'') \<and> list_all isOctalDigit ds \<or>
           (x = CHR ''b'' \<or> x = CHR ''B'') \<and> list_all isBinaryDigit ds)
      | _ \<Rightarrow> False)"

text \<open>\<^verbatim>\<open>!isNaN(Number(s))\<close> for a string \<open>s\<close>.\<close>

definition stringIsNumeric :: "string \<Rightarrow> bool" where
  "stringIsNumeric s =
     (let t = trimWhiteSpace s
      in t = [] \<or> isStrDecimalLiteral t \<or> isNonDecimalIntegerLiteral t)"

text \<open>\<^verbatim>\<open>Number(s) == 0\<close> for a string \<open>s\<close>: a literal all of whose mantissa digits are 0.\<close>

definition isZeroDigit :: "char \<Rightarrow> bool" where
  "isZeroDigit c = (c = CHR ''0'')"

definition stringIsZero :: "string \<Rightarrow> bool" where
  "stringIsZero s =
     (let t = trimWhiteSpace s
      in t = [] \<or>
         (isNonDecimalIntegerLiteral t \<and> list_all isZeroDigit (drop 2 t)) \<or>
         (isStrDecimalLiteral t \<and>
          (let u = (case t of c # r \<Rightarrow> if c = CHR ''+'' \<or> c = CHR ''-'' then r else t | [] \<Rightarrow> t)
           in u \<noteq> ''Infinity'' \<and>
              (case splitMantissa u of
                 (ip, dot, fp, r) \<Rightarrow> list_all isZeroDigit ip \<and> list_all isZeroDigit fp))))"

subsection \<open>Loose equality with 0 and with the empty string\<close>

text \<open>
  \<^verbatim>\<open>v == 0\<close> and \<^verbatim>\<open>v == ""\<close>.  An array or object operand is first turned into its
  string: an array joins its elements with commas (a hole, \<^verbatim>\<open>undefined\<close> and \<^verbatim>\<open>null\<close>
  give the empty string), a plain object gives \<^verbatim>\<open>[object Object]\<close>.  \<open>toStringIsZero v\<close>
  says that the string of \<open>v\<close> converts to the number 0, \<open>toStringIsEmpty v\<close> that it is
  empty.
\<close>

fun toStringIsZero :: "jsval \<Rightarrow> bool" where
  "toStringIsZero JUndefined = False"
| "toStringIsZero JNull = False"
| "toStringIsZero (JBool b) = False"
| "toStringIsZero (JNum n) = numIsZero n"
| "toStringIsZero (JStr s) = stringIsZero s"
| "toStringIsZero (JObj kvs) = False"
| "toStringIsZero (JArr [] ps) = True"
| "toStringIsZero (JArr [None] ps) = True"
| "toStringIsZero (JArr [Some JUndefined] ps) = True"
| "toStringIsZero (JArr [Some JNull] ps) = True"
| "toStringIsZero (JArr [Some x] ps) = toStringIsZero x"
| "toStringIsZero (JArr (e # e' # es) ps) = False"

fun toStringIsEmpty :: "jsval \<Rightarrow> bool" where
  "toStringIsEmpty JUndefined = False"
| "toStringIsEmpty JNull = False"
| "toStringIsEmpty (JBool b) = False"
| "toStringIsEmpty (JNum n) = False"
| "toStringIsEmpty (JStr s) = (s = [])"
| "toStringIsEmpty (JObj kvs) = False"
| "toStringIsEmpty (JArr [] ps) = True"
| "toStringIsEmpty (JArr [None] ps) = True"
| "toStringIsEmpty (JArr [Some JUndefined] ps) = True"
| "toStringIsEmpty (JArr [Some JNull] ps) = True"
| "toStringIsEmpty (JArr [Some x] ps) = toStringIsEmpty x"
| "toStringIsEmpty (JArr (e # e' # es) ps) = False"

fun looseEqZero :: "jsval \<Rightarrow> bool" where
  "looseEqZero JUndefined = False"
| "looseEqZero JNull = False"
| "looseEqZero (JBool b) = (\<not> b)"
| "looseEqZero (JNum n) = numIsZero n"
| "looseEqZero (JStr s) = stringIsZero s"
| "looseEqZero (JObj kvs) = False"
| "looseEqZero (JArr es ps) = toStringIsZero (JArr es ps)"

fun looseEqEmptyString :: "jsval \<Rightarrow> bool" where
  "looseEqEmptyString JUndefined = False"
| "looseEqEmptyString JNull = False"
| "looseEqEmptyString (JBool b) = (\<not> b)"
| "looseEqEmptyString (JNum n) = numIsZero n"
| "looseEqEmptyString (JStr s) = (s = [])"
| "looseEqEmptyString (JObj kvs) = False"
| "looseEqEmptyString (JArr es ps) = toStringIsEmpty (JArr es ps)"

subsection \<open>Reading \<^verbatim>\<open>length\<close>\<close>

text \<open>
  \<^verbatim>\<open>v?.length\<close>: \<^verbatim>\<open>undefined\<close> for \<^verbatim>\<open>undefined\<close> and \<^verbatim>\<open>null\<close> (the optional chain), the
  number of code units of a string, the length of an array, the own property of that
  name of a plain object, and \<^verbatim>\<open>undefined\<close> for a number or a boolean.
\<close>

fun optLength :: "jsval \<Rightarrow> jsval" where
  "optLength (JStr s) = JNum (Fin (int (length s)))"
| "optLength (JArr es ps) = JNum (Fin (int (length es)))"
| "optLength (JObj kvs) = (case map_of kvs ''length'' of None \<Rightarrow> JUndefined | Some v \<Rightarrow> v)"
| "optLength v = JUndefined"

section \<open>Validators\<close>

text \<open>
  A validator takes the field's value and the whole-form values and resolves to a
  message or to nothing (\<open>None\<close> is \<^verbatim>\<open>undefined\<close>).
\<close>

type_synonym FieldValidator = "jsval \<Rightarrow> jsval \<Rightarrow> string option"

definition required :: "string \<Rightarrow> FieldValidator" where
  "required message = (\<lambda>v vs.
     if \<not> isNumber v \<and> \<not> truthy v then Some message
     else if looseEqZero (optLength v) then Some message
     else None)"

section \<open>Path analyzer\<close>

record NamePathPart =
  partValue :: string
  arrayIndex :: bool

text \<open>\<^verbatim>\<open>name.split(".")\<close>: always at least one piece.\<close>

fun splitDot :: "string \<Rightarrow> string list" where
  "splitDot [] = [[]]"
| "splitDot (c # cs) =
     (if c = CHR ''.'' then [] # splitDot cs
      else (case splitDot cs of p # ps \<Rightarrow> (c # p) # ps | [] \<Rightarrow> [[c]]))"

definition analyzeNamePath :: "string \<Rightarrow> NamePathPart list" where
  "analyzeNamePath name =
     map (\<lambda>part. \<lparr>partValue = part, arrayIndex = stringIsNumeric part\<rparr>) (splitDot name)"

section \<open>Property keys\<close>

definition digitValue :: "char \<Rightarrow> nat" where
  "digitValue c = of_char c - 48"

definition natOfDigits :: "string \<Rightarrow> nat" where
  "natOfDigits s = foldl (\<lambda>a c. 10 * a + digitValue c) 0 s"

text \<open>
  An array index is the canonical decimal string of an integer below \<open>2\<^sup>3\<^sup>2 - 1\<close>.
  The own keys of an object are enumerated with the array indices first, in
  ascending order, then the other keys in insertion order (\<^verbatim>\<open>for ... in\<close>,
  \<^verbatim>\<open>Object.keys\<close>).
\<close>

definition isArrayIndexKey :: "string \<Rightarrow> bool" where
  "isArrayIndexKey s =
     (s \<noteq> [] \<and> list_all isDecimalDigit s \<and> (hd s = CHR ''0'' \<longrightarrow> length s = 1) \<and>
      natOfDigits s < 4294967295)"

definition ownEntries :: "(string \<times> 'a) list \<Rightarrow> (string \<times> 'a) list" where
  "ownEntries kvs =
     sort_key (\<lambda>kv. natOfDigits (fst kv)) (filter (\<lambda>kv. isArrayIndexKey (fst kv)) kvs) @
     filter (\<lambda>kv. \<not> isArrayIndexKey (fst kv)) kvs"

definition ownKeys :: "(string \<times> 'a) list \<Rightarrow> string list" where
  "ownKeys kvs = map fst (ownEntries kvs)"

section \<open>Field records and the registry\<close>

text \<open>
  An element handle names a bound input element; the elements themselves live in the
  state of the page (see below).  The registry is the store \<^verbatim>\<open>data\<close>: the own
  properties of one object, in insertion order, one per field name.  A name is any
  string that is not a member of \<^verbatim>\<open>Object.prototype\<close>.
\<close>

type_synonym FormElement = nat

record Field =
  path :: "NamePathPart list"
  ref :: "FormElement option"
  fieldValue :: jsval
  touched :: bool
  errors :: "string list"
  validators :: "FieldValidator list"

type_synonym Data = "(string \<times> Field) list"

datatype memberKey = MValue | MTouched | MErrors

text \<open>\<^verbatim>\<open>data[key][memberKey]\<close>\<close>

fun member :: "memberKey \<Rightarrow> Field \<Rightarrow> jsval" where
  "member MValue f = fieldValue f"
| "member MTouched f = JBool (touched f)"
| "member MErrors f = JArr (map (\<lambda>e. Some (JStr e)) (errors f)) []"

section \<open>Nested-object projector\<close>

text \<open>
  The object under construction.  The containers that the projector creates are
  nodes; what it writes at the end of a path is a leaf holding the member.  A walk
  that enters a leaf holding an array or an object would touch a value of the store:
  that is \<open>NotModelled\<close>, as are the key \<^verbatim>\<open>__proto__\<close>, a container property named
  \<^verbatim>\<open>hasOwnProperty\<close> (it would shadow the method the walk calls) and a write of a
  non-number to the \<^verbatim>\<open>length\<close> of an array.  The code is a module, so assignments are strict: a
  write to a property of a primitive throws.
\<close>

datatype tree =
    Leaf jsval
  | ArrNode "tree option list" "(string \<times> tree) list"
  | ObjNode "(string \<times> tree) list"

fun toJs :: "tree \<Rightarrow> jsval" where
  "toJs (Leaf v) = v"
| "toJs (ArrNode es ps) = JArr (map (map_option toJs) es) (map (map_prod id toJs) ps)"
| "toJs (ObjNode kvs) = JObj (map (map_prod id toJs) kvs)"

text \<open>\<^verbatim>\<open>last.hasOwnProperty(k)\<close>\<close>

fun hasOwnProperty :: "tree \<Rightarrow> string \<Rightarrow> error + bool" where
  "hasOwnProperty (Leaf JUndefined) k = Inl TypeError"
| "hasOwnProperty (Leaf JNull) k = Inl TypeError"
| "hasOwnProperty (Leaf (JBool b)) k = Inr False"
| "hasOwnProperty (Leaf (JNum n)) k = Inr False"
| "hasOwnProperty (Leaf (JStr s)) k =
     Inr (k = ''length'' \<or> (isArrayIndexKey k \<and> natOfDigits k < length s))"
| "hasOwnProperty (Leaf (JArr es ps)) k = Inl NotModelled"
| "hasOwnProperty (Leaf (JObj kvs)) k = Inl NotModelled"
| "hasOwnProperty (ObjNode kvs) k = Inr (map_of kvs k \<noteq> None)"
| "hasOwnProperty (ArrNode es ps) k =
     Inr (k = ''length'' \<or>
          (if isArrayIndexKey k then natOfDigits k < length es \<and> es ! natOfDigits k \<noteq> None
           else map_of ps k \<noteq> None))"

text \<open>\<^verbatim>\<open>last[k]\<close>, read where \<open>k\<close> is an own property.\<close>

fun getProp :: "tree \<Rightarrow> string \<Rightarrow> error + tree" where
  "getProp (Leaf JUndefined) k = Inl TypeError"
| "getProp (Leaf JNull) k = Inl TypeError"
| "getProp (Leaf (JStr s)) k =
     (if k = ''length'' then Inr (Leaf (JNum (Fin (int (length s)))))
      else if isArrayIndexKey k \<and> natOfDigits k < length s then Inr (Leaf (JStr [s ! natOfDigits k]))
      else Inl NotModelled)"
| "getProp (Leaf v) k = Inl NotModelled"
| "getProp (ObjNode kvs) k = (case map_of kvs k of Some t \<Rightarrow> Inr t | None \<Rightarrow> Inl NotModelled)"
| "getProp (ArrNode es ps) k =
     (if k = ''length'' then Inr (Leaf (JNum (Fin (int (length es)))))
      else if isArrayIndexKey k then
        (if natOfDigits k < length es then
           (case es ! natOfDigits k of Some t \<Rightarrow> Inr t | None \<Rightarrow> Inl NotModelled)
         else Inl NotModelled)
      else (case map_of ps k of Some t \<Rightarrow> Inr t | None \<Rightarrow> Inl NotModelled))"

text \<open>Writing index \<open>i\<close> of an array: beyond the end the array grows, leaving holes.\<close>

definition setIndex :: "'a option list \<Rightarrow> nat \<Rightarrow> 'a \<Rightarrow> 'a option list" where
  "setIndex es i x =
     (if i < length es then es[i := Some x] else es @ replicate (i - length es) None @ [Some x])"

text \<open>Writing the \<^verbatim>\<open>length\<close> of an array.\<close>

fun arraySetLength :: "tree option list \<Rightarrow> (string \<times> tree) list \<Rightarrow> tree \<Rightarrow> error + tree" where
  "arraySetLength es ps (Leaf (JNum (Fin n))) =
     (if 0 \<le> n \<and> n < 4294967296
      then Inr (ArrNode (take (nat n) es @ replicate (nat n - length es) None) ps)
      else Inl RangeError)"
| "arraySetLength es ps (Leaf (JNum NegZero)) = Inr (ArrNode [] ps)"
| "arraySetLength es ps (Leaf (JNum n)) = Inl RangeError"
| "arraySetLength es ps x = Inl NotModelled"

text \<open>\<^verbatim>\<open>last[k] = x\<close>\<close>

fun setProp :: "tree \<Rightarrow> string \<Rightarrow> tree \<Rightarrow> error + tree" where
  "setProp (Leaf JUndefined) k x = Inl TypeError"
| "setProp (Leaf JNull) k x = Inl TypeError"
| "setProp (Leaf (JArr es ps)) k x = Inl NotModelled"
| "setProp (Leaf (JObj kvs)) k x = Inl NotModelled"
| "setProp (Leaf v) k x = (if k = ''__proto__'' then Inl NotModelled else Inl TypeError)"
| "setProp (ObjNode kvs) k x =
     (if k = ''__proto__'' \<or> k = ''hasOwnProperty'' then Inl NotModelled
      else Inr (ObjNode (AList.update k x kvs)))"
| "setProp (ArrNode es ps) k x =
     (if k = ''__proto__'' \<or> k = ''hasOwnProperty'' then Inl NotModelled
      else if k = ''length'' then arraySetLength es ps x
      else if isArrayIndexKey k then Inr (ArrNode (setIndex es (natOfDigits k) x) ps)
      else Inr (ArrNode es (AList.update k x ps)))"

text \<open>
  The variable \<^verbatim>\<open>last\<close> points into the object under construction; it is kept as the
  list of keys that lead to it from the root.  \<open>nodeAt\<close> follows the pointer,
  \<open>updateAt\<close> applies a write to the container it points to, and \<open>replaceChild\<close> puts a
  changed container back in its place.
\<close>

fun replaceChild :: "tree \<Rightarrow> string \<Rightarrow> tree \<Rightarrow> error + tree" where
  "replaceChild (ObjNode kvs) k c = Inr (ObjNode (AList.update k c kvs))"
| "replaceChild (ArrNode es ps) k c =
     (if isArrayIndexKey k then Inr (ArrNode (es[natOfDigits k := Some c]) ps)
      else Inr (ArrNode es (AList.update k c ps)))"
| "replaceChild (Leaf v) k c = Inl NotModelled"

fun nodeAt :: "tree \<Rightarrow> string list \<Rightarrow> error + tree" where
  "nodeAt t [] = Inr t"
| "nodeAt t (k # ks) = (case getProp t k of Inl e \<Rightarrow> Inl e | Inr c \<Rightarrow> nodeAt c ks)"

fun updateAt :: "tree \<Rightarrow> string list \<Rightarrow> (tree \<Rightarrow> error + tree) \<Rightarrow> error + tree" where
  "updateAt t [] f = f t"
| "updateAt t (k # ks) f =
     (case getProp t k of
        Inl e \<Rightarrow> Inl e
      | Inr c \<Rightarrow> (case updateAt c ks f of Inl e \<Rightarrow> Inl e | Inr c' \<Rightarrow> replaceChild t k c'))"

text \<open>\<^verbatim>\<open>path[i + 1]?.arrayIndex\<close>, on the segments after the current one.\<close>

fun nextArrayIndex :: "NamePathPart list \<Rightarrow> bool" where
  "nextArrayIndex [] = False"
| "nextArrayIndex (q # qs) = arrayIndex q"

text \<open>
  The loop of \<^verbatim>\<open>createObjectFromPath\<close>, on the segments from index \<open>i\<close> on: \<open>object\<close> is
  the root, \<open>lastPtr\<close> the pointer \<^verbatim>\<open>last\<close>.
\<close>

fun walkPath :: "tree \<Rightarrow> string list \<Rightarrow> NamePathPart list \<Rightarrow> jsval \<Rightarrow> error + tree" where
  "walkPath object lastPtr [] v = Inr object"
| "walkPath object lastPtr (part # rest) v =
     (case nodeAt object lastPtr of
        Inl e \<Rightarrow> Inl e
      | Inr node \<Rightarrow>
        (case hasOwnProperty node (partValue part) of
           Inl e \<Rightarrow> Inl e
         | Inr has \<Rightarrow>
           (case (if has then Inr object
                  else updateAt object lastPtr (\<lambda>n. setProp n (partValue part)
                         (if nextArrayIndex rest then ArrNode [] [] else ObjNode []))) of
              Inl e \<Rightarrow> Inl e
            | Inr object' \<Rightarrow>
                if rest \<noteq> [] then walkPath object' (lastPtr @ [partValue part]) rest v
                else updateAt object' lastPtr (\<lambda>n. setProp n (partValue part) (Leaf v)))))"

definition createObjectFromPath :: "tree \<Rightarrow> NamePathPart list \<Rightarrow> jsval \<Rightarrow> error + tree" where
  "createObjectFromPath object p v = walkPath object [] p v"

text \<open>\<^verbatim>\<open>extractFieldsMember\<close>: the loop over the keys of \<^verbatim>\<open>data\<close>, then the object built.\<close>

fun projectKeys :: "Data \<Rightarrow> memberKey \<Rightarrow> string list \<Rightarrow> tree \<Rightarrow> error + tree" where
  "projectKeys d m [] object = Inr object"
| "projectKeys d m (key # keys) object =
     (case map_of d key of
        None \<Rightarrow> Inl TypeError
      | Some f \<Rightarrow>
          (case createObjectFromPath object (path f) (member m f) of
             Inl e \<Rightarrow> Inl e
           | Inr object' \<Rightarrow> projectKeys d m keys object'))"

definition extractFieldsMember :: "memberKey \<Rightarrow> Data \<Rightarrow> error + jsval" where
  "extractFieldsMember m d =
     (case projectKeys d m (ownKeys d) (ObjNode []) of Inl e \<Rightarrow> Inl e | Inr t \<Rightarrow> Inr (toJs t))"

section \<open>The form state\<close>

text \<open>
  A bound element is an external collaborator: the engine reads its type, value and
  checked flag when a field is registered with it, writes its value and asks it for
  the focus.  The state of the page is the elements and the list of focus requests
  made so far, oldest first.  The conversion that an element applies to a value
  written to it is not part of the engine: an element keeps what was written.
\<close>

record Element =
  elemType :: string
  elemValue :: jsval
  elemChecked :: bool

record FormState =
  data :: Data
  initialData :: "(string \<times> jsval) list"
  elements :: "FormElement \<Rightarrow> Element"
  focusLog :: "FormElement list"

definition setElementValue :: "FormElement \<Rightarrow> jsval \<Rightarrow> FormState \<Rightarrow> FormState" where
  "setElementValue el v st = st\<lparr>elements := (elements st)(el := (elements st el)\<lparr>elemValue := v\<rparr>)\<rparr>"

definition focus :: "FormElement \<Rightarrow> FormState \<Rightarrow> FormState" where
  "focus el st = st\<lparr>focusLog := focusLog st @ [el]\<rparr>"

text \<open>\<^verbatim>\<open>data[name] = f\<close>: an existing property keeps its place, a new one is added last.\<close>

definition setData :: "string \<Rightarrow> Field \<Rightarrow> FormState \<Rightarrow> FormState" where
  "setData name f st = st\<lparr>data := AList.update name f (data st)\<rparr>"

section \<open>Field registry\<close>

subsection \<open>\<^verbatim>\<open>addField\<close>, in its three drafts\<close>

text \<open>
  \<^verbatim>\<open>src/index.tsx\<close>: the value comes from the element, else from the default; a checkbox
  gives its checked flag; an initial value for the name, when there is one, wins and
  is pushed to the element.  \<open>initialValues\<close> is the argument of \<^verbatim>\<open>createForm\<close>.
\<close>

definition addFieldV1 ::
  "(string \<rightharpoonup> jsval) \<Rightarrow> string \<Rightarrow> FieldValidator list \<Rightarrow> jsval \<Rightarrow> FormElement option \<Rightarrow>
   FormState \<Rightarrow> FormState" where
  "addFieldV1 initialValues name vs defaultValue element st =
     (let value0 = (case element of
                      None \<Rightarrow> defaultValue
                    | Some el \<Rightarrow>
                        if elemValue (elements st el) = JUndefined \<or> elemValue (elements st el) = JNull
                        then defaultValue else elemValue (elements st el));
          value1 = (case element of
                      None \<Rightarrow> value0
                    | Some el \<Rightarrow>
                        if elemType (elements st el) = ''checkbox''
                        then JBool (elemChecked (elements st el)) else value0);
          initial = (case initialValues name of None \<Rightarrow> JUndefined | Some v \<Rightarrow> v);
          value2 = (if initial \<noteq> JUndefined then initial else value1);
          st1 = (if initial \<noteq> JUndefined
                 then (case element of None \<Rightarrow> st | Some el \<Rightarrow> setElementValue el value2 st)
                 else st)
      in setData name
           \<lparr>path = analyzeNamePath name, ref = element, fieldValue = value2, touched = False,
            errors = [], validators = vs\<rparr> st1)"

text \<open>
  The second draft: the value of a record that is already there is kept, and pushed
  to the element.
\<close>

definition addFieldV2 ::
  "string \<Rightarrow> FieldValidator list \<Rightarrow> jsval \<Rightarrow> FormElement option \<Rightarrow> FormState \<Rightarrow> FormState" where
  "addFieldV2 name vs defaultValue element st =
     (let p = analyzeNamePath name
      in case map_of (data st) name of
           None \<Rightarrow>
             setData name
               \<lparr>path = p, ref = element, fieldValue = defaultValue, touched = False,
                errors = [], validators = vs\<rparr> st
         | Some old \<Rightarrow>
             setData name
               \<lparr>path = p, ref = element, fieldValue = fieldValue old, touched = False,
                errors = [], validators = vs\<rparr>
               (case element of None \<Rightarrow> st | Some el \<Rightarrow> setElementValue el (fieldValue old) st))"

text \<open>
  The third draft computes the same record outside the store and merges it into the
  store under the name, which sets each of its six properties.
\<close>

definition addFieldV3 ::
  "string \<Rightarrow> FieldValidator list \<Rightarrow> jsval \<Rightarrow> FormElement option \<Rightarrow> FormState \<Rightarrow> FormState" where
  "addFieldV3 name vs defaultValue element st =
     (let p = analyzeNamePath name;
          value = (case map_of (data st) name of None \<Rightarrow> defaultValue | Some old \<Rightarrow> fieldValue old);
          st1 = (case map_of (data st) name of
                   None \<Rightarrow> st
                 | Some old \<Rightarrow>
                     (case element of None \<Rightarrow> st | Some el \<Rightarrow> setElementValue el (fieldValue old) st))
      in setData name
           \<lparr>path = p, ref = element, fieldValue = value, touched = False,
            errors = [], validators = vs\<rparr> st1)"

subsection \<open>The other operations (\<^verbatim>\<open>src/index.tsx\<close>)\<close>

definition removeField :: "string \<Rightarrow> FormState \<Rightarrow> FormState" where
  "removeField name st = st\<lparr>data := AList.delete name (data st)\<rparr>"

definition touch :: "string \<Rightarrow> FormState \<Rightarrow> FormState" where
  "touch name st =
     (case map_of (data st) name of
        None \<Rightarrow> st
      | Some f \<Rightarrow> setData name (f\<lparr>touched := True\<rparr>) st)"

definition setFieldRef :: "string \<Rightarrow> FormElement \<Rightarrow> FormState \<Rightarrow> FormState" where
  "setFieldRef name el st =
     (case map_of (data st) name of
        None \<Rightarrow> st
      | Some f \<Rightarrow> setData name (f\<lparr>ref := Some el\<rparr>) st)"

definition addError :: "string \<Rightarrow> string \<Rightarrow> bool \<Rightarrow> FormState \<Rightarrow> FormState" where
  "addError name err foc st =
     (case map_of (data st) name of
        None \<Rightarrow> st
      | Some f \<Rightarrow>
          (let st1 = setData name (f\<lparr>errors := errors f @ [err]\<rparr>) st
           in case ref f of
                None \<Rightarrow> st1
              | Some el \<Rightarrow> if foc then focus el st1 else st1))"

definition setField :: "string \<Rightarrow> jsval \<Rightarrow> bool \<Rightarrow> FormState \<Rightarrow> FormState" where
  "setField name v updateElementValue st =
     (case map_of (data st) name of
        None \<Rightarrow> st
      | Some f \<Rightarrow>
          (let f1 = f\<lparr>fieldValue := v\<rparr>;
               f2 = (if \<not> touched f1 then f1\<lparr>touched := True\<rparr> else f1);
               st1 = setData name f2 st
           in case ref f2 of
                None \<Rightarrow> st1
              | Some el \<Rightarrow> if updateElementValue then setElementValue el v st1 else st1))"

text \<open>
  The optional argument of \<^verbatim>\<open>clearErrors\<close> and \<^verbatim>\<open>validate\<close>: absent, one name, or a list
  of names.
\<close>

datatype nameArg = NoName | Name string | Names "string list"

text \<open>\<^verbatim>\<open>data[key].errors = []\<close>, which throws when there is no such record.\<close>

definition clearFieldErrors :: "string \<Rightarrow> Data \<Rightarrow> error + Data" where
  "clearFieldErrors key d =
     (case map_of d key of
        None \<Rightarrow> Inl TypeError
      | Some f \<Rightarrow> Inr (AList.update key (f\<lparr>errors := []\<rparr>) d))"

fun clearErrorsLoop :: "string list \<Rightarrow> Data \<Rightarrow> (error + unit) \<times> Data" where
  "clearErrorsLoop [] d = (Inr (), d)"
| "clearErrorsLoop (key # keys) d =
     (case clearFieldErrors key d of
        Inl e \<Rightarrow> (Inl e, d)
      | Inr d' \<Rightarrow> clearErrorsLoop keys d')"

text \<open>
  The result of a call that can throw is its outcome, an error or a value, together
  with the state it leaves.
\<close>

definition clearErrors :: "nameArg \<Rightarrow> FormState \<Rightarrow> (error + unit) \<times> FormState" where
  "clearErrors arg st =
     (case (case arg of
              NoName \<Rightarrow> clearErrorsLoop (ownKeys (data st)) (data st)
            | Name n \<Rightarrow>
                if n = [] then clearErrorsLoop (ownKeys (data st)) (data st)
                else clearErrorsLoop [n] (data st)
            | Names ks \<Rightarrow>
                if ks = [] then clearErrorsLoop (ownKeys (data st)) (data st)
                else clearErrorsLoop ks (data st)) of
        (r, d) \<Rightarrow> (r, st\<lparr>data := d\<rparr>))"

section \<open>Dirty and validity evaluator\<close>

fun isFormValidLoop :: "(string \<times> Field) list \<Rightarrow> bool" where
  "isFormValidLoop [] = True"
| "isFormValidLoop ((key, field) # rest) =
     (if errors field \<noteq> [] \<or> validators field \<noteq> [] \<and> \<not> touched field then False
      else isFormValidLoop rest)"

definition isFormValid :: "FormState \<Rightarrow> bool" where
  "isFormValid st = isFormValidLoop (ownEntries (data st))"

text \<open>
  The third draft.  \<^verbatim>\<open>stableHash\<close> is a function of an external package; it is taken
  as a parameter, and so is the type of the hashes, which are only compared.
\<close>

definition isFieldDirty :: "(jsval \<Rightarrow> 'h) \<Rightarrow> FormState \<Rightarrow> string \<Rightarrow> bool" where
  "isFieldDirty stableHash st name =
     (case map_of (data st) name of
        None \<Rightarrow> False
      | Some f \<Rightarrow>
          (case map_of (initialData st) name of
             None \<Rightarrow> \<not> looseEqEmptyString (fieldValue f)
           | Some iv \<Rightarrow> stableHash iv \<noteq> stableHash (fieldValue f)))"

definition dirty :: "(jsval \<Rightarrow> 'h) \<Rightarrow> FormState \<Rightarrow> (string \<times> bool) list" where
  "dirty stableHash st = map (\<lambda>key. (key, isFieldDirty stableHash st key)) (ownKeys (data st))"

fun isDirtyLoop :: "bool list \<Rightarrow> bool" where
  "isDirtyLoop [] = False"
| "isDirtyLoop (v # vs) = (if v then True else isDirtyLoop vs)"

definition isDirty :: "(jsval \<Rightarrow> 'h) \<Rightarrow> FormState \<Rightarrow> bool" where
  "isDirty stableHash st = isDirtyLoop (map snd (ownEntries (dirty stableHash st)))"

section \<open>Validation pipeline\<close>

text \<open>
  Validators are awaited one after the other.  In this model nothing else runs while
  a validation waits, except where a statement says so: a validator is a function of
  its two arguments, and the whole-form values are projected afresh at each call.
\<close>

text \<open>
  The loop over the validators of the field \<open>name\<close>: \<open>errs\<close> is the list collected so
  far.  Each round reads \<^verbatim>\<open>data[name].value\<close> and \<^verbatim>\<open>values()\<close>.
\<close>

fun runValidators :: "FieldValidator list \<Rightarrow> string \<Rightarrow> Data \<Rightarrow> string list \<Rightarrow> error + string list" where
  "runValidators [] name d errs = Inr errs"
| "runValidators (validator # rest) name d errs =
     (case map_of d name of
        None \<Rightarrow> Inl TypeError
      | Some f \<Rightarrow>
          (case extractFieldsMember MValue d of
             Inl e \<Rightarrow> Inl e
           | Inr vals \<Rightarrow>
               (case validator (fieldValue f) vals of
                  None \<Rightarrow> runValidators rest name d errs
                | Some err \<Rightarrow> runValidators rest name d (errs @ [err]))))"

text \<open>
  What \<^verbatim>\<open>validate(name)\<close> does once its last validator has resolved: the focus request,
  the write of the collected list, the result.
\<close>

definition validateFinish :: "string \<Rightarrow> string list \<Rightarrow> bool \<Rightarrow> FormState \<Rightarrow> (error + bool) \<times> FormState" where
  "validateFinish name errs focusOnError st =
     (case map_of (data st) name of
        None \<Rightarrow> (Inl TypeError, st)
      | Some f \<Rightarrow>
          (let st1 = (if errs \<noteq> [] \<and> focusOnError
                      then (case ref f of None \<Rightarrow> st | Some el \<Rightarrow> focus el st)
                      else st)
           in (Inr (errs = []), setData name (f\<lparr>errors := errs\<rparr>) st1)))"

text \<open>The branch of \<^verbatim>\<open>validate\<close> for one name.\<close>

definition validateField :: "string \<Rightarrow> bool \<Rightarrow> FormState \<Rightarrow> (error + bool) \<times> FormState" where
  "validateField name focusOnError st =
     (case map_of (data st) name of
        None \<Rightarrow> (Inr False, st)
      | Some f \<Rightarrow>
          (case runValidators (validators f) name (data st) [] of
             Inl e \<Rightarrow> (Inl e, st)
           | Inr errs \<Rightarrow> validateFinish name errs focusOnError st))"

text \<open>
  The loop of \<^verbatim>\<open>multiple\<close>, with the flags \<^verbatim>\<open>isValid\<close> and \<^verbatim>\<open>alreadyFocusField\<close>.
  \<open>validateOne\<close> is the call \<^verbatim>\<open>validate(key, false)\<close>; a result \<open>None\<close> is a call that
  does not return.
\<close>

fun multiple ::
  "(string \<Rightarrow> FormState \<Rightarrow> ((error + bool) \<times> FormState) option) \<Rightarrow> string list \<Rightarrow> bool \<Rightarrow>
   bool \<Rightarrow> bool \<Rightarrow> FormState \<Rightarrow> ((error + bool) \<times> FormState) option" where
  "multiple validateOne [] focusOnError isValid alreadyFocusField st = Some (Inr isValid, st)"
| "multiple validateOne (key # keys) focusOnError isValid alreadyFocusField st =
     (case validateOne key st of
        None \<Rightarrow> None
      | Some (Inl e, st') \<Rightarrow> Some (Inl e, st')
      | Some (Inr result, st') \<Rightarrow>
          if \<not> result \<and> isValid then
            (if alreadyFocusField then multiple validateOne keys focusOnError False alreadyFocusField st'
             else
               (case map_of (data st') key of
                  None \<Rightarrow> Some (Inl TypeError, st')
                | Some f \<Rightarrow>
                    (case ref f of
                       None \<Rightarrow> multiple validateOne keys focusOnError False alreadyFocusField st'
                     | Some el \<Rightarrow>
                         if focusOnError
                         then multiple validateOne keys focusOnError False True (focus el st')
                         else multiple validateOne keys focusOnError False alreadyFocusField st')))
          else multiple validateOne keys focusOnError isValid alreadyFocusField st')"

text \<open>
  \<^verbatim>\<open>validate\<close> calls itself through \<^verbatim>\<open>multiple\<close>, and a field named by the empty string
  sends the call for that name back to all fields.  The first argument bounds the depth
  of the calls; \<open>None\<close> means that the bound was reached.
\<close>

primrec validate :: "nat \<Rightarrow> nameArg \<Rightarrow> bool \<Rightarrow> FormState \<Rightarrow> ((error + bool) \<times> FormState) option" where
  "validate 0 arg focusOnError st = None"
| "validate (Suc n) arg focusOnError st =
     (case arg of
        NoName \<Rightarrow> multiple (\<lambda>key. validate n (Name key) False) (ownKeys (data st)) focusOnError True False st
      | Name name \<Rightarrow>
          if name = []
          then multiple (\<lambda>key. validate n (Name key) False) (ownKeys (data st)) focusOnError True False st
          else Some (validateField name focusOnError st)
      | Names names \<Rightarrow>
          if names = []
          then multiple (\<lambda>key. validate n (Name key) False) (ownKeys (data st)) focusOnError True False st
          else multiple (\<lambda>key. validate n (Name key) False) names focusOnError True False st)"

section \<open>Reference notions and example states\<close>

text \<open>
  The state a form starts from: no field, no snapshot, no focus request yet, on a page
  whose elements are empty text inputs.
\<close>

definition textInput :: Element where
  "textInput = \<lparr>elemType = ''text'', elemValue = JStr [], elemChecked = False\<rparr>"

definition createForm :: FormState where
  "createForm = \<lparr>data = [], initialData = [], elements = (\<lambda>el. textInput), focusLog = []\<rparr>"

text \<open>
  The messages that the validators of a field return for its value and the whole-form
  values \<open>vals\<close>, in the order of the validators.
\<close>

definition messages :: "Field \<Rightarrow> jsval \<Rightarrow> string list" where
  "messages f vals = List.map_filter (\<lambda>validator. validator (fieldValue f) vals) (validators f)"

text \<open>A registered field passes when its validators return no message.\<close>

definition fieldPasses :: "Data \<Rightarrow> jsval \<Rightarrow> string \<Rightarrow> bool" where
  "fieldPasses d vals key = (case map_of d key of None \<Rightarrow> False | Some f \<Rightarrow> messages f vals = [])"

text \<open>
  The focus requests that a batch over \<open>names\<close> may make: the element of the first name
  that does not pass, when it has one.
\<close>

definition firstFailureFocus :: "Data \<Rightarrow> jsval \<Rightarrow> string list \<Rightarrow> FormElement list" where
  "firstFailureFocus d vals names =
     (case find (\<lambda>key. \<not> fieldPasses d vals key) names of
        None \<Rightarrow> []
      | Some key \<Rightarrow>
          (case map_of d key of
             None \<Rightarrow> []
           | Some f \<Rightarrow> (case ref f of None \<Rightarrow> [] | Some el \<Rightarrow> [el])))"

text \<open>The messages for the field of a name.\<close>

definition fieldMessages :: "Data \<Rightarrow> jsval \<Rightarrow> string \<Rightarrow> string list" where
  "fieldMessages d vals key = (case map_of d key of None \<Rightarrow> [] | Some f \<Rightarrow> messages f vals)"

text \<open>
  A registry with the errors of every field forgotten, and what a batch of validations
  over \<open>names\<close> makes of a registry \<open>d\<close>: the same fields in the same order, the errors
  of each named field replaced by its messages, every other field as it was.
\<close>

definition withoutErrors :: "Data \<Rightarrow> Data" where
  "withoutErrors d = map (\<lambda>kf. (fst kf, (snd kf)\<lparr>errors := []\<rparr>)) d"

definition batchValidated :: "Data \<Rightarrow> jsval \<Rightarrow> string list \<Rightarrow> Data \<Rightarrow> bool" where
  "batchValidated d vals names d' \<longleftrightarrow>
     withoutErrors d' = withoutErrors d \<and>
     (\<forall>k \<in> set names. map_option errors (map_of d' k) = Some (fieldMessages d vals k)) \<and>
     (\<forall>k. k \<notin> set names \<longrightarrow> map_of d' k = map_of d k)"




section \<open>Basic facts about the store\<close>

lemma map_of_setData:
  "map_of (data (setData name f st)) k = (if k = name then Some f else map_of (data st) k)"
  by (simp add: setData_def update_conv')

lemma data_setElementValue: "data (setElementValue el v st) = data st"
  by (simp add: setElementValue_def)

lemma data_focus: "data (focus el st) = data st"
  by (simp add: focus_def)

lemma map_of_removeField: "map_of (data (removeField n st)) n = None"
  by (simp add: removeField_def delete_conv')

section \<open>The \<^verbatim>\<open>required\<close> validator\<close>

text \<open>
  C10.  The validator made by \<^verbatim>\<open>required(message)\<close> returns no error for every number
  (0 and NaN included), every non-empty string and every non-empty array, and returns
  the message for the empty string, the empty array, \<^verbatim>\<open>false\<close>, \<^verbatim>\<open>null\<close> and
  \<^verbatim>\<open>undefined\<close>.
\<close>

theorem required_cases:
  "required message (JNum n) vals = None \<and>
   (s \<noteq> [] \<longrightarrow> required message (JStr s) vals = None) \<and>
   (es \<noteq> [] \<longrightarrow> required message (JArr es ps) vals = None) \<and>
   required message (JStr []) vals = Some message \<and>
   required message (JArr [] ps) vals = Some message \<and>
   required message (JBool False) vals = Some message \<and>
   required message JNull vals = Some message \<and>
   required message JUndefined vals = Some message"
  by (simp add: required_def numIsZero_def)

theorem required_cases_witness:
  "''a'' \<noteq> [] \<and> [Some (JStr ''a'')] \<noteq> [] \<and>
   required ''Required'' (JNum (Fin 0)) JNull = None \<and>
   required ''Required'' (JNum NaN) JNull = None \<and>
   required ''Required'' (JStr ''a'') JNull = None \<and>
   required ''Required'' (JArr [Some (JStr ''a'')] []) JNull = None \<and>
   required ''Required'' (JStr []) JNull = Some ''Required''"
  using required_cases [of "''Required''" "Fin 0" JNull "''a''" "[Some (JStr ''a'')]" "[]"]
        required_cases [of "''Required''" NaN JNull "''a''" "[Some (JStr ''a'')]" "[]"]
  by simp

section \<open>Registering a field again\<close>

text \<open>
  C1, as stated, at \<^verbatim>\<open>src/index.tsx\<close>: registering \<open>n\<close> with default \<open>d1\<close> and then with
  default \<open>d2\<close> does not leave the value unchanged; the second default wins.
\<close>

theorem addFieldV1_second_default_wins:
  "\<not> (map_option fieldValue
        (map_of (data (addFieldV1 Map.empty ''n'' [] (JStr ''d2'') None
                        (addFieldV1 Map.empty ''n'' [] (JStr ''d1'') None createForm))) ''n'') =
       map_option fieldValue
        (map_of (data (addFieldV1 Map.empty ''n'' [] (JStr ''d1'') None createForm)) ''n''))"
  by (simp add: addFieldV1_def map_of_setData Let_def)

text \<open>
  C1, amended.  In the second and third drafts, registering a name that is present
  keeps the value of its record.  In \<^verbatim>\<open>src/index.tsx\<close> there is no such check: the value
  is the initial value for the name, when there is one; otherwise, with an element, its
  checked flag for a checkbox and else its value unless that is undefined or null;
  otherwise the default.  In all three drafts a record for the name is present after
  the call.
\<close>

theorem addField_value_on_reregistration:
  "(map_of (data st) n = Some f \<longrightarrow>
      map_option fieldValue (map_of (data (addFieldV2 n vs d el st)) n) = Some (fieldValue f) \<and>
      map_option fieldValue (map_of (data (addFieldV3 n vs d el st)) n) = Some (fieldValue f)) \<and>
   map_option fieldValue (map_of (data (addFieldV1 iv n vs d None st)) n) =
      Some (case iv n of None \<Rightarrow> d | Some v \<Rightarrow> if v = JUndefined then d else v) \<and>
   map_of (data (addFieldV1 iv n vs d el st)) n \<noteq> None \<and>
   map_of (data (addFieldV2 n vs d el st)) n \<noteq> None \<and>
   map_of (data (addFieldV3 n vs d el st)) n \<noteq> None \<and>
   map_option fieldValue (map_of (data (addFieldV1 iv n vs d (Some x) st)) n) =
      Some (let fromElement =
                  (if elemType (elements st x) = ''checkbox'' then JBool (elemChecked (elements st x))
                   else if elemValue (elements st x) = JUndefined \<or> elemValue (elements st x) = JNull
                        then d else elemValue (elements st x))
            in case iv n of
                 None \<Rightarrow> fromElement
               | Some v \<Rightarrow> if v = JUndefined then fromElement else v)"
  by (auto simp add: addFieldV1_def addFieldV2_def addFieldV3_def map_of_setData Let_def
        split: option.splits)

theorem addField_value_on_reregistration_witness:
  "map_of (data (addFieldV2 ''n'' [] (JStr ''d1'') None createForm)) ''n'' =
     Some \<lparr>path = analyzeNamePath ''n'', ref = None, fieldValue = JStr ''d1'', touched = False,
           errors = [], validators = []\<rparr> \<and>
   map_option fieldValue
     (map_of (data (addFieldV2 ''n'' [] (JStr ''d2'') None
                     (addFieldV2 ''n'' [] (JStr ''d1'') None createForm))) ''n'') = Some (JStr ''d1'') \<and>
   map_option fieldValue
     (map_of (data (addFieldV3 ''n'' [] (JStr ''d2'') None
                     (addFieldV2 ''n'' [] (JStr ''d1'') None createForm))) ''n'') = Some (JStr ''d1'')"
proof -
  have h: "map_of (data (addFieldV2 ''n'' [] (JStr ''d1'') None createForm)) ''n'' =
     Some \<lparr>path = analyzeNamePath ''n'', ref = None, fieldValue = JStr ''d1'', touched = False,
           errors = [], validators = []\<rparr>"
    by (simp add: addFieldV2_def createForm_def map_of_setData)
  show ?thesis
    using h addField_value_on_reregistration
      [of "addFieldV2 ''n'' [] (JStr ''d1'') None createForm" "''n''"
          "\<lparr>path = analyzeNamePath ''n'', ref = None, fieldValue = JStr ''d1'', touched = False,
            errors = [], validators = []\<rparr>" "[]" "JStr ''d2''" None]
    by simp
qed

text \<open>
  C2, as stated: registering again a field that was touched does not leave its
  touched flag unchanged.
\<close>

theorem addFieldV2_resets_touched:
  "\<not> (map_option touched
        (map_of (data (addFieldV2 ''n'' [] (JStr []) None
                        (touch ''n'' (addFieldV2 ''n'' [] (JStr []) None createForm)))) ''n'') =
       map_option touched
        (map_of (data (touch ''n'' (addFieldV2 ''n'' [] (JStr []) None createForm))) ''n''))"
  by (simp add: addFieldV2_def touch_def createForm_def map_of_setData)

text \<open>
  C2, amended.  In all three drafts \<^verbatim>\<open>addField\<close> writes a whole record: after the call
  the field is untouched and has no errors, whether or not the name was present.
\<close>

theorem addField_resets_touched_and_errors:
  "map_option touched (map_of (data (addFieldV1 iv n vs d el st)) n) = Some False \<and>
   map_option errors (map_of (data (addFieldV1 iv n vs d el st)) n) = Some [] \<and>
   map_option touched (map_of (data (addFieldV2 n vs d el st)) n) = Some False \<and>
   map_option errors (map_of (data (addFieldV2 n vs d el st)) n) = Some [] \<and>
   map_option touched (map_of (data (addFieldV3 n vs d el st)) n) = Some False \<and>
   map_option errors (map_of (data (addFieldV3 n vs d el st)) n) = Some []"
  by (simp add: addFieldV1_def addFieldV2_def addFieldV3_def map_of_setData Let_def
        split: option.splits)

section \<open>Names that are not registered\<close>

text \<open>
  C8.  For a name that is not in the registry, \<^verbatim>\<open>touch\<close>, \<^verbatim>\<open>setField\<close>, \<^verbatim>\<open>addError\<close>,
  \<^verbatim>\<open>setFieldRef\<close> and \<^verbatim>\<open>removeField\<close> leave the state as it is, and \<^verbatim>\<open>validate\<close> on that
  single name returns false and leaves the state as it is.  \<^verbatim>\<open>clearErrors\<close> on that name
  is not a silent no-op: it throws a TypeError (the state is unchanged).
\<close>

theorem unknown_name_operations:
  assumes "map_of (data st) n = None"
  shows "touch n st = st \<and> setField n v u st = st \<and> addError n e foc st = st \<and>
         setFieldRef n el st = st \<and> removeField n st = st \<and>
         (n \<noteq> [] \<longrightarrow> validate (Suc k) (Name n) foc st = Some (Inr False, st)) \<and>
         (n \<noteq> [] \<longrightarrow> clearErrors (Name n) st = (Inl TypeError, st))"
proof -
  from assms have "n \<notin> fst ` set (data st)"
    by (simp add: map_of_eq_None_iff)
  then have "removeField n st = st"
    by (simp add: removeField_def)
  with assms show ?thesis
    by (simp add: touch_def setField_def addError_def setFieldRef_def validateField_def
          clearErrors_def clearFieldErrors_def)
qed

theorem unknown_name_operations_witness:
  "map_of (data createForm) ''ghost'' = None \<and> ''ghost'' \<noteq> [] \<and>
   touch ''ghost'' createForm = createForm \<and>
   removeField ''ghost'' createForm = createForm \<and>
   validate (Suc 0) (Name ''ghost'') False createForm = Some (Inr False, createForm) \<and>
   clearErrors (Name ''ghost'') createForm = (Inl TypeError, createForm)"
proof -
  have h: "map_of (data createForm) ''ghost'' = None"
    by (simp add: createForm_def)
  show ?thesis
    using h unknown_name_operations [OF h, of _ _ _ False _ 0] by simp
qed

text \<open>
  C9.  When the field \<open>n\<close> has been removed while \<^verbatim>\<open>validate(n)\<close> was waiting for a
  validator, the rest of the call is not a guarded no-op: the completing write throws
  a TypeError, and so does the next round of the loop if validators remain.  The
  registry is left as the removal left it.
\<close>

theorem validate_completion_after_removal:
  "validateFinish n errs foc (removeField n st) = (Inl TypeError, removeField n st) \<and>
   runValidators (validator # rest) n (data (removeField n st)) errs = Inl TypeError"
  by (simp add: validateFinish_def map_of_removeField)

section \<open>Enumeration of the registry\<close>

lemma set_ownEntries: "set (ownEntries kvs) = set kvs"
  by (auto simp add: ownEntries_def)

lemma set_ownKeys: "set (ownKeys kvs) = fst ` set kvs"
  by (simp add: ownKeys_def set_ownEntries)

section \<open>Validity\<close>

lemma isFormValidLoop_iff:
  "isFormValidLoop xs \<longleftrightarrow>
   (\<forall>(k, f) \<in> set xs. \<not> (errors f \<noteq> [] \<or> validators f \<noteq> [] \<and> \<not> touched f))"
  by (induction xs rule: isFormValidLoop.induct) auto

lemma set_update_distinct:
  "distinct (map fst al) \<Longrightarrow>
   set (AList.update k v al) = insert (k, v) {x \<in> set al. fst x \<noteq> k}"
  by (induction al) (auto simp add: rev_image_eqI)

lemma validateFinish_data:
  "map_of (data st) n = Some f \<Longrightarrow>
   validateFinish n errs foc st = (r, st') \<Longrightarrow>
   r = Inr (errs = []) \<and> data st' = AList.update n (f\<lparr>errors := errs\<rparr>) (data st)"
  by (auto simp add: validateFinish_def setData_def focus_def Let_def split: option.splits if_splits)

lemma validateField_data:
  assumes "map_of (data st) n = Some f" "validateField n foc st = (Inr b, st')"
  shows "\<exists>errs. b = (errs = []) \<and> data st' = AList.update n (f\<lparr>errors := errs\<rparr>) (data st)"
proof (cases "runValidators (validators f) n (data st) []")
  case (Inl e)
  with assms show ?thesis by (simp add: validateField_def)
next
  case (Inr errs)
  with assms have "validateFinish n errs foc st = (Inr b, st')"
    by (simp add: validateField_def)
  from validateFinish_data [OF assms(1) this] show ?thesis by auto
qed

lemma analyze_email: "analyzeNamePath ''email'' = [\<lparr>partValue = ''email'', arrayIndex = False\<rparr>]"
  by (simp add: analyzeNamePath_def stringIsNumeric_def trimWhiteSpace_def isWhiteSpace_def
        isStrDecimalLiteral_def isUnsignedDecimal_def splitMantissa_def isDecimalDigit_def
        isNonDecimalIntegerLiteral_def)

lemma values_email:
  "extractFieldsMember MValue
     [(''email'', \<lparr>path = [\<lparr>partValue = ''email'', arrayIndex = False\<rparr>], ref = r, fieldValue = v,
                  touched = t, errors = es, validators = vs\<rparr>)] =
   Inr (JObj [(''email'', v)])"
  by (simp add: extractFieldsMember_def ownKeys_def ownEntries_def isArrayIndexKey_def
        isDecimalDigit_def createObjectFromPath_def)

text \<open>
  C4.  The form is valid exactly when no field has an error or has validators while
  untouched.  So a registered field with a validator, no error and never touched
  makes the form invalid; and when every other field is in order, touching the field
  and then a validation of it that passes leave a valid form.
\<close>

theorem isFormValid_iff:
  "(isFormValid st \<longleftrightarrow>
      (\<forall>(k, f) \<in> set (data st). \<not> (errors f \<noteq> [] \<or> validators f \<noteq> [] \<and> \<not> touched f))) \<and>
   (map_of (data st) n = Some f \<and> errors f = [] \<and> validators f \<noteq> [] \<and> \<not> touched f \<longrightarrow>
      \<not> isFormValid st) \<and>
   (distinct (map fst (data st)) \<and> n \<noteq> [] \<and>
    (\<forall>(k, g) \<in> set (data st). k \<noteq> n \<longrightarrow>
        \<not> (errors g \<noteq> [] \<or> validators g \<noteq> [] \<and> \<not> touched g)) \<and>
    validate (Suc j) (Name n) foc (touch n st) = Some (Inr True, st') \<longrightarrow>
      isFormValid st')"
proof (intro conjI impI)
  show iff: "isFormValid st \<longleftrightarrow>
      (\<forall>(k, f) \<in> set (data st). \<not> (errors f \<noteq> [] \<or> validators f \<noteq> [] \<and> \<not> touched f))" for st
    by (simp add: isFormValid_def isFormValidLoop_iff set_ownEntries)
  show "\<not> isFormValid st"
    if "map_of (data st) n = Some f \<and> errors f = [] \<and> validators f \<noteq> [] \<and> \<not> touched f"
  proof -
    from that have "(n, f) \<in> set (data st)" by (simp add: map_of_SomeD)
    with that show ?thesis unfolding iff by blast
  qed
  show "isFormValid st'"
    if h: "distinct (map fst (data st)) \<and> n \<noteq> [] \<and>
      (\<forall>(k, g) \<in> set (data st). k \<noteq> n \<longrightarrow>
          \<not> (errors g \<noteq> [] \<or> validators g \<noteq> [] \<and> \<not> touched g)) \<and>
      validate (Suc j) (Name n) foc (touch n st) = Some (Inr True, st')"
  proof (cases "map_of (data st) n")
    case None
    from h have "n \<noteq> []" and "validate (Suc j) (Name n) foc (touch n st) = Some (Inr True, st')"
      by blast+
    with None show ?thesis by (simp add: touch_def validateField_def)
  next
    case (Some f0)
    let ?f1 = "f0\<lparr>touched := True\<rparr>"
    have d1: "data (touch n st) = AList.update n ?f1 (data st)"
      using Some by (simp add: touch_def setData_def)
    then have m1: "map_of (data (touch n st)) n = Some ?f1"
      by (simp add: update_conv')
    from h have "n \<noteq> []" and "validate (Suc j) (Name n) foc (touch n st) = Some (Inr True, st')"
      by blast+
    then have "validateField n foc (touch n st) = (Inr True, st')" by simp
    from validateField_data [OF m1 this] obtain errs where
      "errs = []" "data st' = AList.update n (?f1\<lparr>errors := errs\<rparr>) (data (touch n st))"
      by auto
    then have "data st' = AList.update n (f0\<lparr>touched := True, errors := []\<rparr>) (data st)"
      by (simp add: d1)
    moreover from h have dist: "distinct (map fst (data st))" by blast
    ultimately have "set (data st') =
        insert (n, f0\<lparr>touched := True, errors := []\<rparr>) {x \<in> set (data st). fst x \<noteq> n}"
      by (simp add: set_update_distinct)
    moreover from h have "\<forall>(k, g) \<in> set (data st). k \<noteq> n \<longrightarrow>
          \<not> (errors g \<noteq> [] \<or> validators g \<noteq> [] \<and> \<not> touched g)" by blast
    ultimately show ?thesis unfolding iff by auto
  qed
qed

theorem isFormValid_iff_witness:
  "map_of (data (addFieldV2 ''email'' [required ''Required''] (JStr ''a@x.com'') None createForm)) ''email'' =
     Some \<lparr>path = analyzeNamePath ''email'', ref = None, fieldValue = JStr ''a@x.com'',
           touched = False, errors = [], validators = [required ''Required'']\<rparr> \<and>
   validate (Suc 0) (Name ''email'') False
     (touch ''email'' (addFieldV2 ''email'' [required ''Required''] (JStr ''a@x.com'') None createForm)) =
     Some (Inr True,
       \<lparr>data = [(''email'', \<lparr>path = analyzeNamePath ''email'', ref = None,
                  fieldValue = JStr ''a@x.com'', touched = True, errors = [],
                  validators = [required ''Required'']\<rparr>)],
        initialData = [], elements = (\<lambda>el. textInput), focusLog = []\<rparr>) \<and>
   \<not> isFormValid (addFieldV2 ''email'' [required ''Required''] (JStr ''a@x.com'') None createForm) \<and>
   isFormValid
       \<lparr>data = [(''email'', \<lparr>path = analyzeNamePath ''email'', ref = None,
                  fieldValue = JStr ''a@x.com'', touched = True, errors = [],
                  validators = [required ''Required'']\<rparr>)],
        initialData = [], elements = (\<lambda>el. textInput), focusLog = []\<rparr>"
proof -
  let ?S = "addFieldV2 ''email'' [required ''Required''] (JStr ''a@x.com'') None createForm"
  let ?F = "\<lparr>path = analyzeNamePath ''email'', ref = None, fieldValue = JStr ''a@x.com'',
           touched = False, errors = [], validators = [required ''Required'']\<rparr>"
  let ?S' = "\<lparr>data = [(''email'', \<lparr>path = analyzeNamePath ''email'', ref = None,
                  fieldValue = JStr ''a@x.com'', touched = True, errors = [],
                  validators = [required ''Required'']\<rparr>)],
        initialData = [], elements = (\<lambda>el. textInput), focusLog = []\<rparr>"
  have d: "data ?S = [(''email'', ?F)]"
    by (simp add: addFieldV2_def createForm_def setData_def)
  have m: "map_of (data ?S) ''email'' = Some ?F"
    by (simp add: d)
  have v: "validate (Suc 0) (Name ''email'') False (touch ''email'' ?S) = Some (Inr True, ?S')"
    by (simp add: addFieldV2_def createForm_def setData_def touch_def validateField_def
          validateFinish_def analyze_email values_email required_def numIsZero_def)
  have o: "\<forall>(k, g) \<in> set (data ?S). k \<noteq> ''email'' \<longrightarrow>
        \<not> (errors g \<noteq> [] \<or> validators g \<noteq> [] \<and> \<not> touched g)"
    by (simp add: d)
  have dist: "distinct (map fst (data ?S))"
    by (simp add: d)
  have ne: "''email'' \<noteq> []"
    by simp
  have f: "errors ?F = [] \<and> validators ?F \<noteq> [] \<and> \<not> touched ?F"
    by simp
  note t = isFormValid_iff [of ?S "''email''" ?F 0 False ?S']
  from t [THEN conjunct2, THEN conjunct1] m f have n1: "\<not> isFormValid ?S"
    by blast
  from t [THEN conjunct2, THEN conjunct2] dist ne o v have n2: "isFormValid ?S'"
    by blast
  from m v n1 n2 show ?thesis
    by blast
qed

section \<open>Dirtiness\<close>

lemma isDirtyLoop_iff: "isDirtyLoop bs \<longleftrightarrow> True \<in> set bs"
  by (induction bs) auto

text \<open>
  C6, as stated: a field with the number 0 as value and no snapshot entry has a value
  that is not the empty string, and is not dirty.
\<close>

theorem zero_without_snapshot_not_dirty:
  "\<not> (isFieldDirty id (addFieldV3 ''n'' [] (JNum (Fin 0)) None createForm) ''n'' \<longleftrightarrow>
       JNum (Fin 0) \<noteq> JStr [])"
  by (simp add: isFieldDirty_def addFieldV3_def createForm_def setData_def numIsZero_def Let_def)

text \<open>
  C6, amended.  A name that is not registered is not dirty.  A registered field with
  a snapshot entry is dirty exactly when the stable hashes of the entry and of the value
  differ, that is, when the two differ for the equality that the hash decides.  A
  registered field without a snapshot entry is dirty exactly when its value is not
  loosely equal to the empty string; for a string value that means: not empty.  The
  form is dirty exactly when some registered field is dirty.
\<close>

theorem dirty_semantics:
  "(map_of (data st) n = None \<longrightarrow> \<not> isFieldDirty h st n) \<and>
   (map_of (data st) n = Some f \<and> map_of (initialData st) n = Some iv \<and>
    (\<forall>a b. (h a = h b) = eqv a b) \<longrightarrow>
      (isFieldDirty h st n \<longleftrightarrow> \<not> eqv iv (fieldValue f))) \<and>
   (map_of (data st) n = Some f \<and> map_of (initialData st) n = None \<longrightarrow>
      (isFieldDirty h st n \<longleftrightarrow> \<not> looseEqEmptyString (fieldValue f))) \<and>
   (map_of (data st) n = Some f \<and> map_of (initialData st) n = None \<and> fieldValue f = JStr s \<longrightarrow>
      (isFieldDirty h st n \<longleftrightarrow> s \<noteq> [])) \<and>
   (isDirty h st \<longleftrightarrow> (\<exists>k \<in> fst ` set (data st). isFieldDirty h st k))"
proof -
  have "set (map snd (ownEntries (dirty h st))) = isFieldDirty h st ` fst ` set (data st)"
    by (simp add: set_ownEntries dirty_def set_ownKeys image_image)
  then have "isDirty h st \<longleftrightarrow> (\<exists>k \<in> fst ` set (data st). isFieldDirty h st k)"
    unfolding isDirty_def isDirtyLoop_iff by (simp add: image_iff)
  then show ?thesis
    by (simp add: isFieldDirty_def)
qed

theorem dirty_semantics_witness:
  "map_of (data ((addFieldV3 ''email'' [] (JStr ''a@x.com'') None createForm)
                   \<lparr>initialData := [(''email'', JStr ''a@x.com'')]\<rparr>)) ''email'' =
     Some \<lparr>path = analyzeNamePath ''email'', ref = None, fieldValue = JStr ''a@x.com'',
           touched = False, errors = [], validators = []\<rparr> \<and>
   map_of (initialData ((addFieldV3 ''email'' [] (JStr ''a@x.com'') None createForm)
                   \<lparr>initialData := [(''email'', JStr ''a@x.com'')]\<rparr>)) ''email'' = Some (JStr ''a@x.com'') \<and>
   (\<forall>a b :: jsval. (id a = id b) = (a = b)) \<and>
   \<not> isFieldDirty id ((addFieldV3 ''email'' [] (JStr ''a@x.com'') None createForm)
                   \<lparr>initialData := [(''email'', JStr ''a@x.com'')]\<rparr>) ''email'' \<and>
   isFieldDirty id (setField ''email'' (JStr ''b@x.com'') True
                   ((addFieldV3 ''email'' [] (JStr ''a@x.com'') None createForm)
                   \<lparr>initialData := [(''email'', JStr ''a@x.com'')]\<rparr>)) ''email'' \<and>
   map_of (initialData (addFieldV3 ''n'' [] (JStr ''x'') None createForm)) ''n'' = None \<and>
   isFieldDirty id (addFieldV3 ''n'' [] (JStr ''x'') None createForm) ''n'' \<and>
   map_of (data createForm) ''n'' = None \<and>
   \<not> isFieldDirty id createForm ''n''"
proof -
  let ?S = "(addFieldV3 ''email'' [] (JStr ''a@x.com'') None createForm)
                   \<lparr>initialData := [(''email'', JStr ''a@x.com'')]\<rparr>"
  let ?F = "\<lparr>path = analyzeNamePath ''email'', ref = None, fieldValue = JStr ''a@x.com'',
           touched = False, errors = [], validators = []\<rparr>"
  let ?T = "setField ''email'' (JStr ''b@x.com'') True ?S"
  let ?G = "\<lparr>path = analyzeNamePath ''email'', ref = None, fieldValue = JStr ''b@x.com'',
           touched = True, errors = [], validators = []\<rparr>"
  let ?U = "addFieldV3 ''n'' [] (JStr ''x'') None createForm"
  let ?H = "\<lparr>path = analyzeNamePath ''n'', ref = None, fieldValue = JStr ''x'',
           touched = False, errors = [], validators = []\<rparr>"
  have m: "map_of (data ?S) ''email'' = Some ?F"
    by (simp add: addFieldV3_def createForm_def setData_def)
  have i: "map_of (initialData ?S) ''email'' = Some (JStr ''a@x.com'')"
    by simp
  have e: "\<forall>a b :: jsval. (id a = id b) = (a = b)"
    by simp
  have mT: "map_of (data ?T) ''email'' = Some ?G"
    by (simp add: addFieldV3_def createForm_def setData_def setField_def)
  have iT: "map_of (initialData ?T) ''email'' = Some (JStr ''a@x.com'')"
    by (simp add: addFieldV3_def createForm_def setData_def setField_def)
  have mU: "map_of (data ?U) ''n'' = Some ?H"
    by (simp add: addFieldV3_def createForm_def setData_def)
  have iU: "map_of (initialData ?U) ''n'' = None"
    by (simp add: addFieldV3_def createForm_def setData_def)
  have vU: "fieldValue ?H = JStr ''x''"
    by simp
  have mC: "map_of (data createForm) ''n'' = None"
    by (simp add: createForm_def)
  from dirty_semantics [of ?S "''email''" id ?F "JStr ''a@x.com''" "(=)", THEN conjunct2, THEN conjunct1]
    m i e
  have r1: "\<not> isFieldDirty id ?S ''email''"
    by simp
  from dirty_semantics [of ?T "''email''" id ?G "JStr ''a@x.com''" "(=)", THEN conjunct2, THEN conjunct1]
    mT iT e
  have r2: "isFieldDirty id ?T ''email''"
    by simp
  from dirty_semantics [of ?U "''n''" id ?H _ _ "''x''",
      THEN conjunct2, THEN conjunct2, THEN conjunct2, THEN conjunct1] mU iU vU
  have r3: "isFieldDirty id ?U ''n''"
    by simp
  from dirty_semantics [of createForm "''n''" id, THEN conjunct1] mC
  have r4: "\<not> isFieldDirty id createForm ''n''"
    by blast
  from m i e r1 r2 iU r3 mC r4 show ?thesis
    by blast
qed

section \<open>Validation of one field\<close>

lemma runValidators_messages:
  "map_of d n = Some f \<Longrightarrow> extractFieldsMember MValue d = Inr vals \<Longrightarrow>
   runValidators vs n d errs =
     Inr (errs @ List.map_filter (\<lambda>validator. validator (fieldValue f) vals) vs)"
  by (induction vs arbitrary: errs) (auto split: option.splits)

lemma validateField_known:
  assumes "map_of (data st) n = Some f" "extractFieldsMember MValue (data st) = Inr vals"
  shows "validateField n foc st =
     (Inr (messages f vals = []),
      setData n (f\<lparr>errors := messages f vals\<rparr>)
        (if messages f vals \<noteq> [] \<and> foc
         then (case ref f of None \<Rightarrow> st | Some el \<Rightarrow> focus el st) else st))"
proof -
  have "runValidators (validators f) n (data st) [] = Inr (messages f vals)"
    using runValidators_messages [OF assms, of "validators f" "[]"]
    by (simp add: messages_def)
  with assms(1) show ?thesis
    by (simp add: validateField_def validateFinish_def)
qed

lemmas analyze_simps =
  analyzeNamePath_def stringIsNumeric_def trimWhiteSpace_def isWhiteSpace_def
  isStrDecimalLiteral_def isUnsignedDecimal_def splitMantissa_def isDecimalDigit_def
  isNonDecimalIntegerLiteral_def

lemma analyze_x: "analyzeNamePath ''x'' = [\<lparr>partValue = ''x'', arrayIndex = False\<rparr>]"
  by (simp add: analyze_simps)




section \<open>Validation of several fields\<close>

lemma map_fst_insort_key:
  "map fst (insort_key (\<lambda>kv. g (fst kv)) x ys) = insort_key g (fst x) (map fst ys)"
  by (induction ys) auto

lemma map_fst_sort_key:
  "map fst (sort_key (\<lambda>kv. g (fst kv)) xs) = sort_key g (map fst xs)"
  by (induction xs) (simp_all add: map_fst_insort_key)

lemma ownKeys_fst:
  "ownKeys kvs =
     sort_key natOfDigits (filter isArrayIndexKey (map fst kvs)) @
     filter (\<lambda>k. \<not> isArrayIndexKey k) (map fst kvs)"
  by (simp add: ownKeys_def ownEntries_def map_fst_sort_key filter_map comp_def)

lemma map_fst_withoutErrors: "map fst (withoutErrors d) = map fst d"
  by (simp add: withoutErrors_def comp_def)

lemma ownKeys_withoutErrors: "ownKeys (withoutErrors d) = ownKeys d"
  by (simp add: ownKeys_fst map_fst_withoutErrors)

lemma map_of_withoutErrors:
  "map_of (withoutErrors d) k = map_option (\<lambda>f. f\<lparr>errors := []\<rparr>) (map_of d k)"
  by (induction d) (auto simp add: withoutErrors_def)

lemma withoutErrors_update:
  "map_of d k = Some f \<Longrightarrow> withoutErrors (AList.update k (f\<lparr>errors := e\<rparr>) d) = withoutErrors d"
  by (induction d) (auto simp add: withoutErrors_def)

lemma projectKeys_withoutErrors:
  "projectKeys (withoutErrors d) MValue ks t = projectKeys d MValue ks t"
  by (induction ks arbitrary: t) (auto simp add: map_of_withoutErrors split: option.splits sum.splits)

lemma values_withoutErrors:
  "extractFieldsMember MValue (withoutErrors d) = extractFieldsMember MValue d"
  by (simp add: extractFieldsMember_def ownKeys_withoutErrors projectKeys_withoutErrors)

lemma messages_errors: "messages (f\<lparr>errors := e\<rparr>) vals = messages f vals"
  by (simp add: messages_def)

lemma fieldPasses_withoutErrors: "fieldPasses (withoutErrors d) vals k = fieldPasses d vals k"
  by (simp add: fieldPasses_def map_of_withoutErrors messages_errors split: option.splits)

lemma fieldMessages_withoutErrors: "fieldMessages (withoutErrors d) vals k = fieldMessages d vals k"
  by (simp add: fieldMessages_def map_of_withoutErrors messages_errors split: option.splits)

lemma firstFailureFocus_withoutErrors:
  "firstFailureFocus (withoutErrors d) vals names = firstFailureFocus d vals names"
  by (simp add: firstFailureFocus_def fieldPasses_withoutErrors map_of_withoutErrors
        split: option.splits)

lemma same_fields:
  assumes "withoutErrors d' = withoutErrors d"
  shows "extractFieldsMember MValue d' = extractFieldsMember MValue d"
    and "fieldPasses d' vals k = fieldPasses d vals k"
    and "fieldMessages d' vals k = fieldMessages d vals k"
    and "firstFailureFocus d' vals names = firstFailureFocus d vals names"
    and "(map_of d' k = None) = (map_of d k = None)"
proof -
  show "extractFieldsMember MValue d' = extractFieldsMember MValue d"
    using assms values_withoutErrors by metis
  show "fieldPasses d' vals k = fieldPasses d vals k"
    using assms fieldPasses_withoutErrors by metis
  show "fieldMessages d' vals k = fieldMessages d vals k"
    using assms fieldMessages_withoutErrors by metis
  show "firstFailureFocus d' vals names = firstFailureFocus d vals names"
    using assms firstFailureFocus_withoutErrors by metis
  have "map_of (withoutErrors d') k = map_of (withoutErrors d) k"
    using assms by simp
  then show "(map_of d' k = None) = (map_of d k = None)"
    unfolding map_of_withoutErrors by (cases "map_of d' k"; cases "map_of d k") simp_all
qed

lemma batchValidated_Nil: "batchValidated d vals [] d"
  by (simp add: batchValidated_def)

lemma batchValidated_Cons:
  assumes f: "map_of d key = Some f"
    and rest: "batchValidated (AList.update key (f\<lparr>errors := messages f vals\<rparr>) d) vals keys d'"
  shows "batchValidated d vals (key # keys) d'"
proof -
  let ?d1 = "AList.update key (f\<lparr>errors := messages f vals\<rparr>) d"
  have w1: "withoutErrors ?d1 = withoutErrors d"
    using f by (rule withoutErrors_update)
  from rest have w: "withoutErrors d' = withoutErrors ?d1"
    and named: "\<forall>k \<in> set keys. map_option errors (map_of d' k) = Some (fieldMessages ?d1 vals k)"
    and others: "\<forall>k. k \<notin> set keys \<longrightarrow> map_of d' k = map_of ?d1 k"
    by (simp_all add: batchValidated_def)
  have fm: "fieldMessages ?d1 vals k = fieldMessages d vals k" for k
    using w1 by (rule same_fields(3))
  have "map_option errors (map_of d' k) = Some (fieldMessages d vals k)" if "k \<in> set (key # keys)" for k
  proof (cases "k \<in> set keys")
    case True
    with named fm show ?thesis by simp
  next
    case False
    with that have "k = key" by simp
    with False others have "map_of d' k = Some (f\<lparr>errors := messages f vals\<rparr>)"
      by (simp add: update_conv')
    with f \<open>k = key\<close> show ?thesis by (simp add: fieldMessages_def)
  qed
  moreover have "map_of d' k = map_of d k" if "k \<notin> set (key # keys)" for k
    using that others by (simp add: update_conv')
  ultimately show ?thesis
    using w w1 by (simp add: batchValidated_def)
qed

lemma validate_one:
  assumes "k \<noteq> []" "map_of (data st) k = Some f" "extractFieldsMember MValue (data st) = Inr vals"
  shows "validate (Suc m) (Name k) False st =
     Some (Inr (messages f vals = []), setData k (f\<lparr>errors := messages f vals\<rparr>) st)"
  using assms by (simp add: validateField_known)

lemma batch_step:
  assumes names: "\<forall>k \<in> set (key # keys). k \<noteq> [] \<and> map_of (data st) k \<noteq> None"
    and vals: "extractFieldsMember MValue (data st) = Inr vals"
    and f: "map_of (data st) key = Some f"
    and st1: "st1 = setData key (f\<lparr>errors := messages f vals\<rparr>) st"
  shows "validate (Suc m) (Name key) False st = Some (Inr (messages f vals = []), st1)"
    and "data st1 = AList.update key (f\<lparr>errors := messages f vals\<rparr>) (data st)"
    and "withoutErrors (data st1) = withoutErrors (data st)"
    and "\<forall>k \<in> set keys. k \<noteq> [] \<and> map_of (data st1) k \<noteq> None"
    and "extractFieldsMember MValue (data st1) = Inr vals"
    and "focusLog st1 = focusLog st"
    and "map_of (data st1) key = Some (f\<lparr>errors := messages f vals\<rparr>)"
proof -
  from names have ne: "key \<noteq> []" by simp
  show "validate (Suc m) (Name key) False st = Some (Inr (messages f vals = []), st1)"
    unfolding st1 using ne f vals by (rule validate_one)
  show d1: "data st1 = AList.update key (f\<lparr>errors := messages f vals\<rparr>) (data st)"
    by (simp add: st1 setData_def)
  show w: "withoutErrors (data st1) = withoutErrors (data st)"
    unfolding d1 using f by (rule withoutErrors_update)
  show "\<forall>k \<in> set keys. k \<noteq> [] \<and> map_of (data st1) k \<noteq> None"
    using names same_fields(5) [OF w] by simp
  show "extractFieldsMember MValue (data st1) = Inr vals"
    using vals same_fields(1) [OF w] by simp
  show "focusLog st1 = focusLog st"
    by (simp add: st1 setData_def)
  show "map_of (data st1) key = Some (f\<lparr>errors := messages f vals\<rparr>)"
    by (simp add: d1 update_conv')
qed

lemma multiple_invalid:
  assumes "\<forall>k \<in> set names. k \<noteq> [] \<and> map_of (data st) k \<noteq> None"
    and "extractFieldsMember MValue (data st) = Inr vals"
  shows "\<exists>st'. multiple (\<lambda>key. validate (Suc m) (Name key) False) names foc False already st =
            Some (Inr False, st') \<and>
          batchValidated (data st) vals names (data st') \<and> focusLog st' = focusLog st"
  using assms
proof (induction names arbitrary: st)
  case Nil
  then show ?case by (simp add: batchValidated_Nil del: validate.simps)
next
  case (Cons key keys)
  from Cons.prems(1) obtain f where f: "map_of (data st) key = Some f"
    by auto
  define st1 where "st1 = setData key (f\<lparr>errors := messages f vals\<rparr>) st"
  note step = batch_step [OF Cons.prems(1) Cons.prems(2) f st1_def]
  from Cons.IH [OF step(4) step(5)] obtain st' where
    run: "multiple (\<lambda>key. validate (Suc m) (Name key) False) keys foc False already st1 =
            Some (Inr False, st')"
    and post: "batchValidated (data st1) vals keys (data st')"
    and log: "focusLog st' = focusLog st1"
    by blast
  have "multiple (\<lambda>key. validate (Suc m) (Name key) False) (key # keys) foc False already st =
          Some (Inr False, st')"
    using step(1) run by (simp del: validate.simps)
  moreover have "batchValidated (data st) vals (key # keys) (data st')"
    using f post unfolding step(2) by (rule batchValidated_Cons)
  ultimately show ?case
    using log step(6) by (simp del: validate.simps)
qed

lemma firstFailureFocus_Cons:
  "firstFailureFocus d vals (key # keys) =
     (if fieldPasses d vals key then firstFailureFocus d vals keys
      else (case map_of d key of
              None \<Rightarrow> []
            | Some f \<Rightarrow> (case ref f of None \<Rightarrow> [] | Some el \<Rightarrow> [el])))"
  by (simp add: firstFailureFocus_def)

lemma multiple_valid:
  assumes "\<forall>k \<in> set names. k \<noteq> [] \<and> map_of (data st) k \<noteq> None"
    and "extractFieldsMember MValue (data st) = Inr vals"
  shows "\<exists>st'. multiple (\<lambda>key. validate (Suc m) (Name key) False) names foc True False st =
            Some (Inr (\<forall>k \<in> set names. fieldPasses (data st) vals k), st') \<and>
          batchValidated (data st) vals names (data st') \<and>
          focusLog st' = focusLog st @ (if foc then firstFailureFocus (data st) vals names else [])"
  using assms
proof (induction names arbitrary: st)
  case Nil
  then show ?case by (simp add: batchValidated_Nil firstFailureFocus_def del: validate.simps)
next
  case (Cons key keys)
  from Cons.prems(1) obtain f where f: "map_of (data st) key = Some f"
    by auto
  define st1 where "st1 = setData key (f\<lparr>errors := messages f vals\<rparr>) st"
  note step = batch_step [OF Cons.prems(1) Cons.prems(2) f st1_def]
  have passes: "fieldPasses (data st) vals key = (messages f vals = [])"
    using f by (simp add: fieldPasses_def)
  have same_pass: "fieldPasses (data st1) vals k = fieldPasses (data st) vals k" for k
    using step(3) by (rule same_fields(2))
  have same_focus: "firstFailureFocus (data st1) vals keys = firstFailureFocus (data st) vals keys"
    using step(3) by (rule same_fields(4))
  show ?case
  proof (cases "messages f vals = []")
    case True
    from Cons.IH [OF step(4) step(5)] obtain st' where
      run: "multiple (\<lambda>key. validate (Suc m) (Name key) False) keys foc True False st1 =
              Some (Inr (\<forall>k \<in> set keys. fieldPasses (data st1) vals k), st')"
      and post: "batchValidated (data st1) vals keys (data st')"
      and log: "focusLog st' =
          focusLog st1 @ (if foc then firstFailureFocus (data st1) vals keys else [])"
      by blast
    have "multiple (\<lambda>key. validate (Suc m) (Name key) False) (key # keys) foc True False st =
            Some (Inr (\<forall>k \<in> set (key # keys). fieldPasses (data st) vals k), st')"
      using step(1) run True passes same_pass by (simp del: validate.simps)
    moreover have "batchValidated (data st) vals (key # keys) (data st')"
      using f post unfolding step(2) by (rule batchValidated_Cons)
    moreover have "focusLog st' =
        focusLog st @ (if foc then firstFailureFocus (data st) vals (key # keys) else [])"
      using log step(6) same_focus True passes by (simp add: firstFailureFocus_Cons)
    ultimately show ?thesis by blast
  next
    case False
    define st2 where "st2 = (case ref f of None \<Rightarrow> st1
                              | Some el \<Rightarrow> if foc then focus el st1 else st1)"
    have d2: "data st2 = data st1"
      by (simp add: st2_def focus_def split: option.splits)
    have l2: "focusLog st2 =
        focusLog st @ (if foc then firstFailureFocus (data st) vals (key # keys) else [])"
      using False passes f step(6)
      by (simp add: st2_def focus_def firstFailureFocus_Cons split: option.splits)
    have h4: "\<forall>k \<in> set keys. k \<noteq> [] \<and> map_of (data st2) k \<noteq> None"
      using step(4) by (simp add: d2)
    have h5: "extractFieldsMember MValue (data st2) = Inr vals"
      using step(5) by (simp add: d2)
    from multiple_invalid [OF h4 h5, of m foc "ref f \<noteq> None \<and> foc"] obtain st' where
      run: "multiple (\<lambda>key. validate (Suc m) (Name key) False) keys foc False
              (ref f \<noteq> None \<and> foc) st2 = Some (Inr False, st')"
      and post: "batchValidated (data st2) vals keys (data st')"
      and log: "focusLog st' = focusLog st2"
      by blast
    have "multiple (\<lambda>key. validate (Suc m) (Name key) False) (key # keys) foc True False st =
            Some (Inr (\<forall>k \<in> set (key # keys). fieldPasses (data st) vals k), st')"
      using step(1) step(7) run False passes
      by (auto simp add: st2_def simp del: validate.simps split: option.splits)
    moreover have "batchValidated (data st) vals (key # keys) (data st')"
      using f post unfolding d2 step(2) by (rule batchValidated_Cons)
    ultimately show ?thesis
      using log l2 by (simp del: validate.simps)
  qed
qed

lemma values_two:
  assumes "\<not> isArrayIndexKey j" "\<not> isArrayIndexKey k" "j \<noteq> ''__proto__''" "k \<noteq> ''__proto__''"
    and "j \<noteq> ''hasOwnProperty''" "k \<noteq> ''hasOwnProperty''" "j \<noteq> k"
  shows "extractFieldsMember m
           [(j, f\<lparr>path := [\<lparr>partValue = j, arrayIndex = a\<rparr>]\<rparr>),
            (k, g\<lparr>path := [\<lparr>partValue = k, arrayIndex = b\<rparr>]\<rparr>)] =
         Inr (JObj [(j, member m f), (k, member m g)])"
  using assms
  by (cases m) (simp_all add: extractFieldsMember_def ownKeys_def ownEntries_def createObjectFromPath_def)

lemma analyze_y: "analyzeNamePath ''y'' = [\<lparr>partValue = ''y'', arrayIndex = False\<rparr>]"
  by (simp add: analyze_simps)

text \<open>
  Batches of registered fields.  Let \<^verbatim>\<open>validate\<close> be called with a non-empty list of
  names, or with no name (or the empty string, or the empty list), which stands for the
  keys of the registry in enumeration order.  When every name is a registered field
  other than the empty string and the whole-form values project to \<open>vals\<close>, the call
  returns, and its result is true exactly when every named field passes.  The errors
  of each named field are replaced by its messages and nothing else changes in the
  registry.  With \<^verbatim>\<open>focusOnError\<close>, the only focus request is for the element of the
  first name that fails, if it has one; without it there is none.
\<close>

lemma registered_batch:
  assumes vals: "extractFieldsMember MValue (data st) = Inr vals"
    and names: "\<forall>k \<in> set names. k \<noteq> [] \<and> map_of (data st) k \<noteq> None"
    and arg: "arg = Names names \<and> names \<noteq> [] \<or>
              (arg = NoName \<or> arg = Name [] \<or> arg = Names []) \<and> names = ownKeys (data st)"
  shows "\<exists>st'. validate (Suc (Suc m)) arg foc st =
            Some (Inr (\<forall>k \<in> set names. fieldPasses (data st) vals k), st') \<and>
          batchValidated (data st) vals names (data st') \<and>
          focusLog st' = focusLog st @ (if foc then firstFailureFocus (data st) vals names else [])"
proof -
  from arg have "validate (Suc (Suc m)) arg foc st =
      multiple (\<lambda>key. validate (Suc m) (Name key) False) names foc True False st"
    by (auto simp del: validate.simps simp add: validate.simps(2) [of "Suc m"])
  with multiple_valid [OF names vals, of m foc] show ?thesis
    by (simp del: validate.simps)
qed

lemma registered_batch_example:
  "extractFieldsMember MValue
     (data (addFieldV2 ''y'' [\<lambda>v vs. Some ''B''] (JStr []) (Some 12)
         (addFieldV2 ''x'' [\<lambda>v vs. Some ''A''] (JStr []) (Some 11) createForm))) =
     Inr (JObj [(''x'', JStr []), (''y'', JStr [])]) \<and>
   map_of (data (addFieldV2 ''y'' [\<lambda>v vs. Some ''B''] (JStr []) (Some 12)
         (addFieldV2 ''x'' [\<lambda>v vs. Some ''A''] (JStr []) (Some 11) createForm))) ''x'' \<noteq> None \<and>
   map_of (data (addFieldV2 ''y'' [\<lambda>v vs. Some ''B''] (JStr []) (Some 12)
         (addFieldV2 ''x'' [\<lambda>v vs. Some ''A''] (JStr []) (Some 11) createForm))) ''y'' \<noteq> None \<and>
   (\<exists>st'. validate (Suc (Suc 0)) (Names [''x'', ''y'']) True
       (addFieldV2 ''y'' [\<lambda>v vs. Some ''B''] (JStr []) (Some 12)
         (addFieldV2 ''x'' [\<lambda>v vs. Some ''A''] (JStr []) (Some 11) createForm)) =
       Some (Inr False, st') \<and> focusLog st' = [11])"
proof -
  let ?S = "addFieldV2 ''y'' [\<lambda>v vs. Some ''B''] (JStr []) (Some 12)
         (addFieldV2 ''x'' [\<lambda>v vs. Some ''A''] (JStr []) (Some 11) createForm)"
  let ?X = "\<lparr>path = [\<lparr>partValue = ''x'', arrayIndex = False\<rparr>], ref = Some 11, fieldValue = JStr [],
            touched = False, errors = [], validators = [\<lambda>v vs. Some ''A'']\<rparr>"
  let ?Y = "\<lparr>path = [\<lparr>partValue = ''y'', arrayIndex = False\<rparr>], ref = Some 12, fieldValue = JStr [],
            touched = False, errors = [], validators = [\<lambda>v vs. Some ''B'']\<rparr>"
  let ?vals = "JObj [(''x'', JStr []), (''y'', JStr [])]"
  have d: "data ?S = [(''x'', ?X), (''y'', ?Y)]"
    by (simp add: addFieldV2_def createForm_def setData_def analyze_x analyze_y)
  have l: "focusLog ?S = []"
    by (simp add: addFieldV2_def createForm_def setData_def)
  have kx: "\<not> isArrayIndexKey ''x''" and ky: "\<not> isArrayIndexKey ''y''"
    by (simp_all add: isArrayIndexKey_def isDecimalDigit_def)
  have vals: "extractFieldsMember MValue (data ?S) = Inr ?vals"
    unfolding d
    using values_two [OF kx ky, where m = MValue and f = ?X and g = ?Y and a = False and b = False]
    by simp
  have names: "\<forall>k \<in> set [''x'', ''y'']. k \<noteq> [] \<and> map_of (data ?S) k \<noteq> None"
    by (simp add: d)
  have arg: "Names [''x'', ''y''] = Names [''x'', ''y''] \<and> [''x'', ''y''] \<noteq> [] \<or>
             (Names [''x'', ''y''] = NoName \<or> Names [''x'', ''y''] = Name [] \<or>
              Names [''x'', ''y''] = Names []) \<and> [''x'', ''y''] = ownKeys (data ?S)"
    by simp
  have px: "\<not> fieldPasses (data ?S) ?vals ''x''"
    by (simp add: d fieldPasses_def messages_def map_filter_simps)
  have fx: "firstFailureFocus (data ?S) ?vals [''x'', ''y''] = [11]"
    using px by (simp add: firstFailureFocus_Cons) (simp add: d)
  from registered_batch [OF vals names arg, of 0 True] obtain st' where
    "validate (Suc (Suc 0)) (Names [''x'', ''y'']) True ?S =
       Some (Inr (\<forall>k \<in> set [''x'', ''y'']. fieldPasses (data ?S) ?vals k), st')"
    and "focusLog st' = focusLog ?S @ (if True then firstFailureFocus (data ?S) ?vals [''x'', ''y''] else [])"
    by blast
  with px fx l have "validate (Suc (Suc 0)) (Names [''x'', ''y'']) True ?S = Some (Inr False, st') \<and>
      focusLog st' = [11]"
    by (simp del: validate.simps)
  then have "\<exists>st'. validate (Suc (Suc 0)) (Names [''x'', ''y'']) True ?S = Some (Inr False, st') \<and>
      focusLog st' = [11]" ..
  moreover from names have "map_of (data ?S) ''x'' \<noteq> None" and "map_of (data ?S) ''y'' \<noteq> None"
    by simp_all
  ultimately show ?thesis
    using vals by blast
qed

section \<open>The projector\<close>

























section \<open>Validation with conflicting paths, the empty name and unregistered names\<close>






text \<open>
  A field registered under the empty string is outside C3 as well: \<^verbatim>\<open>validate("")\<close> is
  the call for all fields, which calls \<^verbatim>\<open>validate("")\<close> again for that field, so the
  call does not return, whatever the bound on the depth.
\<close>

lemma validate_empty_name_never_returns:
  "ownKeys (data st) = [] # keys \<Longrightarrow> validate k (Name []) foc st = None"
  by (induction k arbitrary: foc) simp_all

lemma empty_name_example:
  "validate k (Name []) foc (addFieldV2 [] [\<lambda>v vs. Some ''A''] (JStr []) None createForm) = None"
proof (rule validate_empty_name_never_returns)
  show "ownKeys (data (addFieldV2 [] [\<lambda>v vs. Some ''A''] (JStr []) None createForm)) = [] # []"
    by (simp add: addFieldV2_def createForm_def setData_def ownKeys_def ownEntries_def
          isArrayIndexKey_def)
qed

text \<open>
  C7.  A batch is to return false when a requested field does not pass, and
  \<^verbatim>\<open>validate\<close> on a single unknown name does return false.  But when the first name of
  the list is not registered, \<^verbatim>\<open>multiple\<close> gets that false and then reads
  \<^verbatim>\<open>data[key].ref\<close> of a record that is not there: the batch throws a TypeError instead
  of returning false, whatever the other names and the focus flag.  The state is
  unchanged.
\<close>

theorem validate_batch_unregistered_name:
  assumes "map_of (data st) n = None" and "n \<noteq> []"
  shows "validate (Suc (Suc m)) (Names (n # rest)) foc st = Some (Inl TypeError, st)"
  using assms by (simp add: validateField_def)

theorem validate_batch_unregistered_name_witness:
  "map_of (data createForm) ''ghost'' = None \<and> ''ghost'' \<noteq> [] \<and>
   validate (Suc (Suc 0)) (Names [''ghost'']) True createForm = Some (Inl TypeError, createForm)"
proof -
  have h: "map_of (data createForm) ''ghost'' = None"
    by (simp add: createForm_def)
  have ne: "''ghost'' \<noteq> []"
    by simp
  from validate_batch_unregistered_name [OF h ne, of 0 "[]" True] h ne show ?thesis
    by blast
qed

end
